theory Spec2Isabelle
  imports Complex_Main
begin

section \<open>JavaScript values\<close>

text \<open>
  The values the collector builds and the API handlers receive: what a JSON document
  can hold, and \<open>undefined\<close>. Numbers are the integers the code works with (epoch
  milliseconds, coordinates, key codes, counts). An object is the list of its fields.
\<close>

datatype jsval =
    JUndefined
  | JNull
  | JBool bool
  | JNum int
  | JStr string
  | JArr "jsval list"
  | JObj "(string \<times> jsval) list"

type_synonym jsobj = "(string \<times> jsval) list"

text \<open>JavaScript truthiness, as tested by \<^verbatim>\<open>!v\<close> and \<^verbatim>\<open>v || d\<close>.\<close>

fun truthy :: "jsval \<Rightarrow> bool" where
  "truthy JUndefined = False"
| "truthy JNull = False"
| "truthy (JBool b) = b"
| "truthy (JNum n) = (n \<noteq> 0)"
| "truthy (JStr s) = (s \<noteq> [])"
| "truthy (JArr vs) = True"
| "truthy (JObj fs) = True"

text \<open>\<^verbatim>\<open>s || ''\<close> on a string that may be undefined.\<close>

definition or_empty :: "string option \<Rightarrow> string" where
  "or_empty s = (case s of None \<Rightarrow> [] | Some v \<Rightarrow> v)"

text \<open>
  \<^verbatim>\<open>xs.slice(-n)\<close> for \<open>n > 0\<close>: the start index is \<open>max (length - n) 0\<close>, which is
  what truncating subtraction on \<open>nat\<close> computes.
\<close>

definition slice_last :: "nat \<Rightarrow> 'a list \<Rightarrow> 'a list" where
  "slice_last n xs = drop (length xs - n) xs"


section \<open>The browser collector (botDetect.js)\<close>

subsection \<open>Configuration\<close>

definition API_ENDPOINT :: string where
  "API_ENDPOINT = ''https://bot-detector-backend.vercel.app/api/collect-behavior''"

definition BATCH_INTERVAL :: int where
  "BATCH_INTERVAL = 10000"

definition MAX_EVENTS :: nat where
  "MAX_EVENTS = 1000"

subsection \<open>What the listeners read from the browser\<close>

record dom_element =
  tagName :: string
  el_id :: "string option"
  className :: "string option"
  textContent :: "string option"

record dom_mouse =
  clientX :: int
  clientY :: int
  pageX :: int
  pageY :: int
  movementX :: int
  movementY :: int
  button :: int
  target :: dom_element

record dom_window =
  scrollX :: int
  scrollY :: int
  innerWidth :: int
  innerHeight :: int
  scrollHeight :: int
  scrollWidth :: int

text \<open>
  A \<^verbatim>\<open>KeyboardEvent\<close>. The fields \<open>key\<close> and \<open>code\<close> exist on the event; the listener
  does not read them.
\<close>

record dom_key =
  key :: string
  code :: string
  keyCode :: int
  location :: int
  ctrlKey :: bool
  shiftKey :: bool
  altKey :: bool
  metaKey :: bool

record dom_page =
  pathname :: string
  title :: string
  referrer :: string
  href :: string

subsection \<open>The buffer\<close>

record mouse_event =
  m_x :: int
  m_y :: int
  m_t :: int
  m_pageX :: int
  m_pageY :: int
  m_movementX :: int
  m_movementY :: int

record click_event =
  c_x :: int
  c_y :: int
  c_btn :: int
  c_tgt :: string
  c_t :: int
  c_id :: string
  c_className :: string
  c_text :: string

record scroll_event =
  s_x :: int
  s_y :: int
  s_t :: int
  s_vw :: int
  s_vh :: int
  s_docH :: int
  s_docW :: int

record page_view =
  pv_url :: string
  pv_title :: string
  pv_ref :: string
  pv_t :: int
  pv_loadTime :: "int option"
  pv_type :: "string option"

text \<open>
  \<open>behaviorData\<close>. A key event is kept as the object literal the listener builds, a list
  of field names with their values, since what is at stake for key events is which
  fields they carry.
\<close>

record behaviorData =
  session_id :: string
  session_start :: int
  mouse_events :: "mouse_event list"
  click_events :: "click_event list"
  scroll_events :: "scroll_event list"
  key_events :: "jsobj list"
  fingerprint :: jsobj
  page_views :: "page_view list"

text \<open>\<open>dataToSend\<close>: the buffer's fields, copied, with the page address and the send time.\<close>

record dataToSend = behaviorData +
  current_url :: string
  collected_at :: int

text \<open>The script's mutable state: the buffer and the time of the last mouse sample.\<close>

record client =
  bd :: behaviorData
  lastMouseTime :: int

subsection \<open>Start of the script\<close>

text \<open>
  \<open>sid\<close> is what \<open>getSessionId\<close> returns, \<open>fp\<close> what \<open>getFingerprint\<close> returns; \<open>t0\<close>,
  \<open>t1\<close> and \<open>t2\<close> are the three readings of the clock; \<open>timing\<close> is
  \<open>(loadEventEnd, navigationStart)\<close> when \<^verbatim>\<open>performance.timing\<close> exists.
\<close>

definition init_client ::
  "string \<Rightarrow> jsobj \<Rightarrow> int \<Rightarrow> int \<Rightarrow> int \<Rightarrow> dom_page \<Rightarrow> (int \<times> int) option \<Rightarrow> client" where
  "init_client sid fp t0 t1 t2 pg timing =
     \<lparr> bd = \<lparr> session_id = sid, session_start = t0,
              mouse_events = [], click_events = [], scroll_events = [], key_events = [],
              fingerprint = fp,
              page_views =
                [\<lparr> pv_url = pathname pg, pv_title = title pg, pv_ref = referrer pg, pv_t = t2,
                   pv_loadTime = Some (case timing of None \<Rightarrow> 0 | Some (e, s) \<Rightarrow> e - s),
                   pv_type = None \<rparr>] \<rparr>,
       lastMouseTime = t1 \<rparr>"

subsection \<open>Event listeners\<close>

definition on_mousemove :: "dom_mouse \<Rightarrow> int \<Rightarrow> client \<Rightarrow> client" where
  "on_mousemove e now c =
     (if now - lastMouseTime c > 50 then
        let pushed = mouse_events (bd c) @
              [\<lparr> m_x = clientX e, m_y = clientY e, m_t = now,
                 m_pageX = pageX e, m_pageY = pageY e,
                 m_movementX = movementX e, m_movementY = movementY e \<rparr>]
        in \<lparr> bd = (bd c)\<lparr> mouse_events :=
                  (if length pushed > MAX_EVENTS then slice_last 500 pushed else pushed) \<rparr>,
             lastMouseTime = now \<rparr>
      else c)"

definition on_click :: "dom_mouse \<Rightarrow> int \<Rightarrow> client \<Rightarrow> client" where
  "on_click e now c =
     (let pushed = click_events (bd c) @
            [\<lparr> c_x = clientX e, c_y = clientY e, c_btn = button e,
               c_tgt = tagName (target e), c_t = now,
               c_id = or_empty (el_id (target e)),
               c_className = or_empty (className (target e)),
               c_text = (case textContent (target e) of
                           None \<Rightarrow> [] | Some s \<Rightarrow> if s = [] then [] else take 50 s) \<rparr>]
      in c\<lparr> bd := (bd c)\<lparr> click_events :=
                (if length pushed > MAX_EVENTS then slice_last 200 pushed else pushed) \<rparr> \<rparr>)"

text \<open>The callback of the 100 ms timer that the scroll listener re-arms.\<close>

definition on_scroll_timeout :: "dom_window \<Rightarrow> int \<Rightarrow> client \<Rightarrow> client" where
  "on_scroll_timeout w now c =
     (let pushed = scroll_events (bd c) @
            [\<lparr> s_x = scrollX w, s_y = scrollY w, s_t = now,
               s_vw = innerWidth w, s_vh = innerHeight w,
               s_docH = scrollHeight w, s_docW = scrollWidth w \<rparr>]
      in c\<lparr> bd := (bd c)\<lparr> scroll_events :=
                (if length pushed > MAX_EVENTS then slice_last 100 pushed else pushed) \<rparr> \<rparr>)"

definition key_object :: "dom_key \<Rightarrow> int \<Rightarrow> jsobj" where
  "key_object e now =
     [(''t'', JNum now),
      (''keyCode'', JNum (keyCode e)),
      (''location'', JNum (location e)),
      (''ctrl'', JBool (ctrlKey e)),
      (''shift'', JBool (shiftKey e)),
      (''alt'', JBool (altKey e)),
      (''meta'', JBool (metaKey e))]"

definition on_keydown :: "dom_key \<Rightarrow> int \<Rightarrow> client \<Rightarrow> client" where
  "on_keydown e now c =
     (let pushed = key_events (bd c) @ [key_object e now]
      in c\<lparr> bd := (bd c)\<lparr> key_events :=
                (if length pushed > MAX_EVENTS then slice_last 300 pushed else pushed) \<rparr> \<rparr>)"

text \<open>
  Every page view after the first is pushed the same way, with a type tag:
  \<^verbatim>\<open>popstate\<close>, \<open>triggerPageView\<close>, \<^verbatim>\<open>beforeunload\<close> and \<^verbatim>\<open>visibilitychange\<close>.
\<close>

definition push_page_view :: "string \<Rightarrow> dom_page \<Rightarrow> int \<Rightarrow> client \<Rightarrow> client" where
  "push_page_view ty pg now c =
     c\<lparr> bd := (bd c)\<lparr> page_views := page_views (bd c) @
           [\<lparr> pv_url = pathname pg, pv_title = title pg, pv_ref = referrer pg, pv_t = now,
              pv_loadTime = None, pv_type = Some ty \<rparr>] \<rparr> \<rparr>"

definition on_popstate :: "dom_page \<Rightarrow> int \<Rightarrow> client \<Rightarrow> client" where
  "on_popstate = push_page_view ''spa_navigation''"

definition triggerPageView :: "string \<Rightarrow> dom_page \<Rightarrow> int \<Rightarrow> client \<Rightarrow> client" where
  "triggerPageView ty = push_page_view ty"

definition on_visibilitychange :: "bool \<Rightarrow> dom_page \<Rightarrow> int \<Rightarrow> client \<Rightarrow> client" where
  "on_visibilitychange visible pg now c =
     (if visible then push_page_view ''tab_return'' pg now c else c)"

subsection \<open>Transmission\<close>

text \<open>
  What the browser does when \<open>sendData\<close> calls it. \<^verbatim>\<open>navigator.sendBeacon\<close> may be absent,
  return a flag, or throw. \<^verbatim>\<open>fetch\<close> returns a promise that is fulfilled or rejected
  later, or the call throws; or there is no \<^verbatim>\<open>fetch\<close> in the browser, and the
  reference to it throws before anything is called.
\<close>

datatype beacon = NoBeacon | BeaconReturns bool | BeaconThrows

datatype fetch_result = FetchFulfilled | FetchRejected | FetchThrows | FetchMissing

record browser =
  sendBeacon :: beacon
  fetch :: fetch_result
  page_href :: string
  clock :: int

text \<open>
  What \<open>sendData\<close> does to the outside: the calls it makes, each with the address and the
  payload (\<^verbatim>\<open>JSON.stringify\<close> is left implicit), and the warnings it logs. A call is
  listed when it is made, whatever it returns and also when it throws.
\<close>

datatype effect =
    Beacon string "dataToSend"
  | Fetch string "dataToSend"
  | Warn string

definition build_payload :: "browser \<Rightarrow> behaviorData \<Rightarrow> dataToSend" where
  "build_payload br b =
     \<lparr> session_id = session_id b, session_start = session_start b,
       mouse_events = mouse_events b, click_events = click_events b,
       scroll_events = scroll_events b, key_events = key_events b,
       fingerprint = fingerprint b, page_views = page_views b,
       current_url = page_href br, collected_at = clock br \<rparr>"

text \<open>"Clear sent events (keep recent ones for context)".\<close>

definition clear_sent :: "client \<Rightarrow> client" where
  "clear_sent c =
     c\<lparr> bd := (bd c)\<lparr> mouse_events := slice_last 50 (mouse_events (bd c)),
                      click_events := slice_last 20 (click_events (bd c)),
                      scroll_events := slice_last 10 (scroll_events (bd c)),
                      key_events := slice_last 30 (key_events (bd c)) \<rparr> \<rparr>"

text \<open>
  \<open>sendData\<close>. The body of the \<^verbatim>\<open>try\<close> runs to its end unless a call throws; then the
  \<^verbatim>\<open>catch\<close> logs a warning and the lines after the call, the clearing among them, do not
  run. Where there is no \<^verbatim>\<open>fetch\<close>, no call is made and the same \<^verbatim>\<open>catch\<close> runs. The
  warning of a rejected \<^verbatim>\<open>fetch\<close> promise is logged later, from its \<^verbatim>\<open>.catch\<close>
  callback; it is listed last.
\<close>

definition sendData :: "browser \<Rightarrow> client \<Rightarrow> client \<times> effect list" where
  "sendData br c =
     (if mouse_events (bd c) = [] \<and> click_events (bd c) = [] \<and>
         scroll_events (bd c) = [] \<and> key_events (bd c) = []
      then (c, [])
      else
        let payload = build_payload br (bd c) in
        (case sendBeacon br of
           BeaconThrows \<Rightarrow>
             (c, [Beacon API_ENDPOINT payload, Warn ''Bot detection: Error sending data''])
         | BeaconReturns True \<Rightarrow>
             (clear_sent c, [Beacon API_ENDPOINT payload])
         | b \<Rightarrow>
             (let tried = (if b = NoBeacon then [] else [Beacon API_ENDPOINT payload]) in
              case fetch br of
                FetchMissing \<Rightarrow>
                  (c, tried @ [Warn ''Bot detection: Error sending data''])
              | FetchThrows \<Rightarrow>
                  (c, tried @ [Fetch API_ENDPOINT payload,
                               Warn ''Bot detection: Error sending data''])
              | FetchFulfilled \<Rightarrow>
                  (clear_sent c, tried @ [Fetch API_ENDPOINT payload])
              | FetchRejected \<Rightarrow>
                  (clear_sent c, tried @ [Fetch API_ENDPOINT payload,
                                          Warn ''Bot detection: Failed to send data'']))))"

definition on_beforeunload :: "dom_page \<Rightarrow> int \<Rightarrow> browser \<Rightarrow> client \<Rightarrow> client \<times> effect list" where
  "on_beforeunload pg now br c = sendData br (push_page_view ''page_exit'' pg now c)"

subsection \<open>Runs of the script\<close>

text \<open>
  The callbacks the browser may invoke, one at a time (the page's event loop is
  single-threaded): the listeners, the two patched history functions, and the
  \<open>BATCH_INTERVAL\<close> timer that calls \<open>sendData\<close>.
\<close>

datatype event =
    MouseMove dom_mouse int
  | Click dom_mouse int
  | ScrollTimeout dom_window int
  | KeyDown dom_key int
  | PopState dom_page int
  | PushState dom_page int
  | ReplaceState dom_page int
  | VisibilityChange bool dom_page int
  | BeforeUnload dom_page int browser
  | Timer browser

fun step :: "event \<Rightarrow> client \<Rightarrow> client \<times> effect list" where
  "step (MouseMove e now) c = (on_mousemove e now c, [])"
| "step (Click e now) c = (on_click e now c, [])"
| "step (ScrollTimeout w now) c = (on_scroll_timeout w now c, [])"
| "step (KeyDown e now) c = (on_keydown e now c, [])"
| "step (PopState pg now) c = (on_popstate pg now c, [])"
| "step (PushState pg now) c = (triggerPageView ''spa_pushstate'' pg now c, [])"
| "step (ReplaceState pg now) c = (triggerPageView ''spa_replacestate'' pg now c, [])"
| "step (VisibilityChange v pg now) c = (on_visibilitychange v pg now c, [])"
| "step (BeforeUnload pg now br) c = on_beforeunload pg now br c"
| "step (Timer br) c = sendData br c"

fun run :: "event list \<Rightarrow> client \<Rightarrow> client" where
  "run [] c = c"
| "run (ev # evs) c = run evs (fst (step ev c))"


section \<open>The API (the BehaviorData model and the behaviour controller)\<close>

subsection \<open>Schemas\<close>

text \<open>
  A sub-document schema, as the list of the paths it declares, each with its type. The
  schemas are strict:
  of the fields of an incoming object, those the schema does not declare are not stored.
\<close>

datatype schema_type = TNumber | TString

definition mouseEventSchema :: "(string \<times> schema_type) list" where
  "mouseEventSchema = [(''x'', TNumber), (''y'', TNumber), (''t'', TNumber)]"

definition clickEventSchema :: "(string \<times> schema_type) list" where
  "clickEventSchema =
     [(''x'', TNumber), (''y'', TNumber), (''btn'', TNumber), (''tgt'', TString),
      (''t'', TNumber)]"

definition scrollEventSchema :: "(string \<times> schema_type) list" where
  "scrollEventSchema = [(''x'', TNumber), (''y'', TNumber), (''t'', TNumber)]"

definition keyEventSchema :: "(string \<times> schema_type) list" where
  "keyEventSchema = [(''t'', TNumber)]"

definition pageViewSchema :: "(string \<times> schema_type) list" where
  "pageViewSchema =
     [(''url'', TString), (''title'', TString), (''ref'', TString), (''t'', TNumber)]"

definition fingerprintSchema :: "(string \<times> schema_type) list" where
  "fingerprintSchema =
     [(''ua'', TString), (''lang'', TString), (''plat'', TString), (''scrw'', TNumber),
      (''scrh'', TNumber), (''color'', TNumber), (''tz'', TString),
      (''maxTouch'', TNumber)]"

text \<open>The fields of an incoming object that a schema declares.\<close>

definition declared_part :: "(string \<times> schema_type) list \<Rightarrow> jsobj \<Rightarrow> jsobj" where
  "declared_part schema obj = filter (\<lambda>kv. fst kv \<in> set (map fst schema)) obj"

subsection \<open>Objects\<close>

text \<open>Reading a property: \<open>undefined\<close> when the object has no such field.\<close>

definition get_field :: "jsobj \<Rightarrow> string \<Rightarrow> jsval" where
  "get_field obj k = (case map_of obj k of None \<Rightarrow> JUndefined | Some v \<Rightarrow> v)"

text \<open>
  Setting a field, as a later entry of an object literal does to what a spread before
  it brought: the field keeps its place when the object has it, and comes last when not.
\<close>

fun set_field :: "string \<Rightarrow> jsval \<Rightarrow> jsobj \<Rightarrow> jsobj" where
  "set_field k v [] = [(k, v)]"
| "set_field k v (f # fs) = (if fst f = k then (k, v) # fs else f # set_field k v fs)"

subsection \<open>Requests\<close>

text \<open>
  What the collection handler reads of a request: the parsed JSON body, an object with
  whatever fields the caller put there; \<^verbatim>\<open>req.ip\<close>, \<^verbatim>\<open>req.connection.remoteAddress\<close> and
  the \<open>User-Agent\<close> header, each a string or \<open>undefined\<close>.
\<close>

record request =
  req_body :: jsobj
  req_ip :: jsval
  remoteAddress :: jsval
  user_agent_header :: jsval

text \<open>
  \<open>BehaviorData.create\<close> is the store's. What the handler sees of it is how the call
  ends: it resolves with the saved document, of which the handler reads the \<open>_id\<close>, or it
  rejects with an error, of which the handler reads the \<open>message\<close>. What the store sees
  of the handler are the calls it makes.
\<close>

datatype create_outcome = Resolved string | Rejected string

datatype store_call = Create jsobj

subsection \<open>Stored records\<close>

text \<open>
  A document of the collection, as the query handlers read it. \<open>d_collected_at\<close> is the
  \<open>collected_at\<close> of the payload, which the collector sets from the browser's clock when
  it sends (the schema's default, the time of storing, is for a payload without one);
  \<open>d_createdAt\<close> is the time the server stored the document (\<^verbatim>\<open>timestamps: true\<close>).
\<close>

record doc =
  d_id :: nat
  d_session_id :: string
  d_session_start :: int
  d_mouse_events :: "jsobj list"
  d_click_events :: "jsobj list"
  d_scroll_events :: "jsobj list"
  d_key_events :: "jsobj list"
  d_fingerprint :: "jsobj option"
  d_page_views :: "jsobj list"
  d_collected_at :: int
  d_ip_address :: "string option"
  d_user_agent :: "string option"
  d_createdAt :: int
  d_updatedAt :: int

text \<open>
  The collection: its documents in the order the store returns them when no sort is asked
  for; the message of the error its operations throw while it cannot be reached, if it
  cannot; and the message of the error it throws for an argument it refuses.
\<close>

record store =
  docs :: "doc list"
  down :: "string option"
  refusal :: string

subsection \<open>The store's query operations\<close>


text \<open>
  A cursor limit: \<open>0\<close> is no limit, and a negative limit is taken by its absolute value.
\<close>

definition apply_limit :: "int \<Rightarrow> 'a list \<Rightarrow> 'a list" where
  "apply_limit l xs = (if l = 0 then xs else take (nat \<bar>l\<bar>) xs)"

definition newest_first :: "doc list \<Rightarrow> doc list" where
  "newest_first ds = sort_key (\<lambda>d. - d_collected_at d) ds"


definition countDocuments :: "(doc \<Rightarrow> bool) \<Rightarrow> store \<Rightarrow> string + nat" where
  "countDocuments P st =
     (case down st of Some msg \<Rightarrow> Inl msg | None \<Rightarrow> Inr (length (filter P (docs st))))"

definition distinct_session_ids :: "store \<Rightarrow> string + string list" where
  "distinct_session_ids st =
     (case down st of
        Some msg \<Rightarrow> Inl msg
      | None \<Rightarrow> Inr (remdups (map d_session_id (docs st))))"

text \<open>\<^verbatim>\<open>find({ collected_at: { $gte: since } }).limit(n)\<close>, with no sort.\<close>

definition find_since :: "int \<Rightarrow> int \<Rightarrow> store \<Rightarrow> string + doc list" where
  "find_since since limit st =
     (case down st of
        Some msg \<Rightarrow> Inl msg
      | None \<Rightarrow>
          Inr (apply_limit limit (filter (\<lambda>d. since \<le> d_collected_at d) (docs st))))"

subsection \<open>The grouping pipeline of the sessions endpoint\<close>

record session_row =
  r_id :: string
  r_session_start :: int
  r_fingerprint :: "jsobj option"
  r_last_activity :: int
  r_page_views_count :: nat
  r_mouse_events_count :: nat
  r_click_events_count :: nat
  r_scroll_events_count :: nat
  r_key_events_count :: nat
  r_total_records :: nat

text \<open>The group a document opens (\<open>$first\<close>, and the first term of \<open>$max\<close> and \<open>$sum\<close>).\<close>

definition new_row :: "doc \<Rightarrow> session_row" where
  "new_row d =
     \<lparr> r_id = d_session_id d,
       r_session_start = d_session_start d,
       r_fingerprint = d_fingerprint d,
       r_last_activity = d_collected_at d,
       r_page_views_count = length (d_page_views d),
       r_mouse_events_count = length (d_mouse_events d),
       r_click_events_count = length (d_click_events d),
       r_scroll_events_count = length (d_scroll_events d),
       r_key_events_count = length (d_key_events d),
       r_total_records = 1 \<rparr>"

text \<open>A further document of a group: \<open>$first\<close> keeps its value, \<open>$max\<close> and \<open>$sum\<close> accumulate.\<close>

definition accumulate :: "session_row \<Rightarrow> doc \<Rightarrow> session_row" where
  "accumulate r d =
     r\<lparr> r_last_activity := max (r_last_activity r) (d_collected_at d),
        r_page_views_count := r_page_views_count r + length (d_page_views d),
        r_mouse_events_count := r_mouse_events_count r + length (d_mouse_events d),
        r_click_events_count := r_click_events_count r + length (d_click_events d),
        r_scroll_events_count := r_scroll_events_count r + length (d_scroll_events d),
        r_key_events_count := r_key_events_count r + length (d_key_events d),
        r_total_records := r_total_records r + 1 \<rparr>"

fun upsert :: "doc \<Rightarrow> session_row list \<Rightarrow> session_row list" where
  "upsert d [] = [new_row d]"
| "upsert d (r # rs) =
     (if r_id r = d_session_id d then accumulate r d # rs else r # upsert d rs)"

definition group_by_session :: "doc list \<Rightarrow> session_row list" where
  "group_by_session ds = fold upsert ds []"

text \<open>
  The pipeline \<open>$group\<close>, \<open>$sort\<close>, \<open>$skip\<close>, \<open>$limit\<close>. The stages refuse a negative
  skip and a limit that is not positive.
\<close>

definition aggregate_sessions :: "int \<Rightarrow> int \<Rightarrow> store \<Rightarrow> string + session_row list" where
  "aggregate_sessions skip limit st =
     (case down st of
        Some msg \<Rightarrow> Inl msg
      | None \<Rightarrow>
          if skip < 0 \<or> limit \<le> 0 then Inl (refusal st)
          else Inr (take (nat limit) (drop (nat skip)
                      (sort_key (\<lambda>r. - r_last_activity r) (group_by_session (docs st))))))"

subsection \<open>Handlers\<close>

text \<open>
  The 500 envelope: the generic message, and the \<open>message\<close> of the error outside
  production.
\<close>

datatype 'a response =
    Ok200 'a
  | Err400 string
  | Err500 string "string option"

definition internal_error :: "bool \<Rightarrow> string \<Rightarrow> 'a response" where
  "internal_error production msg =
     Err500 ''Internal server error'' (if production then None else Some msg)"

record collected =
  co_message :: string
  co_session_id :: jsval
  co_record_id :: string

text \<open>\<^verbatim>\<open>req.ip || req.connection.remoteAddress\<close>.\<close>

definition caller_address :: "request \<Rightarrow> jsval" where
  "caller_address req = (if truthy (req_ip req) then req_ip req else remoteAddress req)"

text \<open>
  \<open>collectBehavior\<close>, given how the call of \<open>create\<close> ends if the handler makes it:
  the response, and the calls made to the store.
\<close>

definition collectBehavior ::
  "bool \<Rightarrow> request \<Rightarrow> create_outcome \<Rightarrow> collected response \<times> store_call list" where
  "collectBehavior production req outcome =
     (let behaviorData = req_body req in
      if \<not> truthy (get_field behaviorData ''session_id'')
      then (Err400 ''session_id is required'', [])
      else
        let dataToSave =
              set_field ''user_agent'' (user_agent_header req)
                (set_field ''ip_address'' (caller_address req) behaviorData)
        in case outcome of
             Rejected msg \<Rightarrow> (internal_error production msg, [Create dataToSave])
           | Resolved saved_id \<Rightarrow>
               (Ok200 \<lparr> co_message = ''Behavior data collected successfully'',
                        co_session_id = get_field behaviorData ''session_id'',
                        co_record_id = saved_id \<rparr>, [Create dataToSave]))"

text \<open>
  The query string of the query handlers: \<open>page\<close> and \<open>limit\<close> after \<^verbatim>\<open>parseInt\<close>,
  where \<open>None\<close> is \<open>NaN\<close> (the parameter is absent or does not start with a number),
  and \<open>session_id\<close>, a string when it is given once and plainly.
\<close>

record query =
  q_page :: "int option"
  q_limit :: "int option"
  q_session_id :: "string option"

text \<open>\<^verbatim>\<open>parseInt(v) || d\<close>: \<open>NaN\<close> and \<open>0\<close> are falsy.\<close>

definition or_default :: "int option \<Rightarrow> int \<Rightarrow> int" where
  "or_default v d = (case v of None \<Rightarrow> d | Some n \<Rightarrow> if n = 0 then d else n)"

text \<open>\<^verbatim>\<open>Math.ceil(a / b)\<close> for \<open>b \<noteq> 0\<close>; the handlers never divide by zero.\<close>

definition ceil_div :: "int \<Rightarrow> int \<Rightarrow> int" where
  "ceil_div a b = - ((- a) div b)"


definition page_of :: "query \<Rightarrow> int" where
  "page_of q = or_default (q_page q) 1"

definition limit_of :: "query \<Rightarrow> int" where
  "limit_of q = or_default (q_limit q) 50"



record sessions_pagination =
  sp_current :: int
  sp_total :: int
  sp_totalSessions :: nat

definition getSessions ::
  "bool \<Rightarrow> query \<Rightarrow> store \<Rightarrow> (session_row list \<times> sessions_pagination) response" where
  "getSessions production q st =
     (let page = page_of q;
          limit = limit_of q;
          skip = (page - 1) * limit
      in case aggregate_sessions skip limit st of
           Inl e \<Rightarrow> internal_error production e
         | Inr sessions \<Rightarrow>
             (case distinct_session_ids st of
                Inl e \<Rightarrow> internal_error production e
              | Inr ids \<Rightarrow>
                  let totalSessions = length ids
                  in Ok200 (sessions,
                       \<lparr> sp_current = page, sp_total = ceil_div (int totalSessions) limit,
                         sp_totalSessions = totalSessions \<rparr>)))"

record stats =
  total_records :: nat
  total_sessions :: nat
  last_24_hours :: nat
  total_mouse_events :: nat
  total_click_events :: nat
  total_scroll_events :: nat
  total_key_events :: nat
  total_page_views :: nat

definition getStats :: "bool \<Rightarrow> int \<Rightarrow> store \<Rightarrow> stats response" where
  "getStats production now st =
     (case countDocuments (\<lambda>d. True) st of
        Inl e \<Rightarrow> internal_error production e
      | Inr totalRecords \<Rightarrow>
     (case distinct_session_ids st of
        Inl e \<Rightarrow> internal_error production e
      | Inr ids \<Rightarrow>
     (let last24Hours = now - 24 * 60 * 60 * 1000 in
      case countDocuments (\<lambda>d. last24Hours \<le> d_collected_at d) st of
        Inl e \<Rightarrow> internal_error production e
      | Inr recentRecords \<Rightarrow>
     (case find_since last24Hours 1000 st of
        Inl e \<Rightarrow> internal_error production e
      | Inr sampleData \<Rightarrow>
          Ok200 \<lparr> total_records = totalRecords,
                  total_sessions = length ids,
                  last_24_hours = recentRecords,
                  total_mouse_events = fold (\<lambda>rec acc. acc + length (d_mouse_events rec)) sampleData 0,
                  total_click_events = fold (\<lambda>rec acc. acc + length (d_click_events rec)) sampleData 0,
                  total_scroll_events = fold (\<lambda>rec acc. acc + length (d_scroll_events rec)) sampleData 0,
                  total_key_events = fold (\<lambda>rec acc. acc + length (d_key_events rec)) sampleData 0,
                  total_page_views = fold (\<lambda>rec acc. acc + length (d_page_views rec)) sampleData 0 \<rparr>))))"


section \<open>Notions used by the properties\<close>

subsection \<open>The collector\<close>

text \<open>The test at the head of \<open>sendData\<close>: the four event arrays it looks at are empty.\<close>

definition queues_empty :: "behaviorData \<Rightarrow> bool" where
  "queues_empty b =
     (mouse_events b = [] \<and> click_events b = [] \<and> scroll_events b = [] \<and> key_events b = [])"

text \<open>A call made inside the \<^verbatim>\<open>try\<close> of \<open>sendData\<close> throws.\<close>

definition send_throws :: "browser \<Rightarrow> bool" where
  "send_throws br =
     (sendBeacon br = BeaconThrows \<or>
      (sendBeacon br \<noteq> BeaconReturns True \<and>
       (fetch br = FetchThrows \<or> fetch br = FetchMissing)))"

text \<open>The browser has neither of the two transports.\<close>

definition no_transport :: "browser \<Rightarrow> bool" where
  "no_transport br = (sendBeacon br = NoBeacon \<and> fetch br = FetchMissing)"

text \<open>The calls to a transport among what a flush did.\<close>

fun is_send :: "effect \<Rightarrow> bool" where
  "is_send (Beacon url p) = True"
| "is_send (Fetch url p) = True"
| "is_send (Warn msg) = False"

text \<open>The payload was handed to one of the two transports, for the collection endpoint.\<close>

definition attempted :: "dataToSend \<Rightarrow> effect list \<Rightarrow> bool" where
  "attempted p effs = (Beacon API_ENDPOINT p \<in> set effs \<or> Fetch API_ENDPOINT p \<in> set effs)"

text \<open>Neighbouring timestamps are at least \<open>d\<close> apart.\<close>

fun gaps_at_least :: "int \<Rightarrow> int list \<Rightarrow> bool" where
  "gaps_at_least d (a # b # ts) = (d \<le> b - a \<and> gaps_at_least d (b # ts))"
| "gaps_at_least d ts = True"

text \<open>
  The append policy in the specification's words: push to the tail; if the length
  exceeds the cap, drop from the head down to \<open>keep\<close> elements.
\<close>

definition spec_append :: "nat \<Rightarrow> 'a list \<Rightarrow> 'a \<Rightarrow> 'a list" where
  "spec_append keep q ev =
     (let q' = q @ [ev] in if length q' > MAX_EVENTS then drop (length q' - keep) q' else q')"

text \<open>
  The fields the specification allows a key event to carry: the timestamp, the
  modifier flags and the location code.
\<close>

definition allowed_key_fields :: "string list" where
  "allowed_key_fields = [''t'', ''ctrl'', ''shift'', ''alt'', ''meta'', ''location'']"

text \<open>The two invariants of the collector's state.\<close>

definition bounded :: "client \<Rightarrow> bool" where
  "bounded c =
     (length (mouse_events (bd c)) \<le> MAX_EVENTS \<and>
      length (click_events (bd c)) \<le> MAX_EVENTS \<and>
      length (scroll_events (bd c)) \<le> MAX_EVENTS \<and>
      length (key_events (bd c)) \<le> MAX_EVENTS)"

definition paced :: "client \<Rightarrow> bool" where
  "paced c =
     (gaps_at_least 50 (map m_t (mouse_events (bd c))) \<and>
      (mouse_events (bd c) = [] \<or> lastMouseTime c = m_t (last (mouse_events (bd c)))))"

subsection \<open>Sample inputs\<close>

definition sample_page :: dom_page where
  "sample_page =
     \<lparr> pathname = ''/'', title = ''Home'', referrer = [], href = ''https://example.org/'' \<rparr>"

definition sample_client :: client where
  "sample_client = init_client ''sess_1000_abc'' [] 1000 1000 1000 sample_page None"

definition sample_pointer :: dom_mouse where
  "sample_pointer =
     \<lparr> clientX = 10, clientY = 20, pageX = 10, pageY = 20, movementX = 1, movementY = 1,
       button = 0,
       target = \<lparr> tagName = ''DIV'', el_id = None, className = None, textContent = None \<rparr> \<rparr>"

text \<open>\<open>n\<close> pointer movements, 100 ms apart, the first 100 ms after the script started.\<close>

definition sample_moves :: "nat \<Rightarrow> event list" where
  "sample_moves n = map (\<lambda>i. MouseMove sample_pointer (1100 + 100 * int i)) [0..<n]"

text \<open>The key A, pressed alone.\<close>

definition sample_key :: dom_key where
  "sample_key =
     \<lparr> key = ''a'', code = ''KeyA'', keyCode = 65, location = 0,
       ctrlKey = False, shiftKey = False, altKey = False, metaKey = False \<rparr>"

definition throwing_browser :: browser where
  "throwing_browser =
     \<lparr> sendBeacon = BeaconThrows, fetch = FetchFulfilled,
       page_href = ''https://example.org/'', clock = 9000 \<rparr>"

text \<open>A browser with neither \<^verbatim>\<open>navigator.sendBeacon\<close> nor \<^verbatim>\<open>fetch\<close>.\<close>

definition bare_browser :: browser where
  "bare_browser =
     \<lparr> sendBeacon = NoBeacon, fetch = FetchMissing,
       page_href = ''https://example.org/'', clock = 9000 \<rparr>"

text \<open>The beacon is refused and the request that replaces it fails later.\<close>

definition failing_browser :: browser where
  "failing_browser =
     \<lparr> sendBeacon = BeaconReturns False, fetch = FetchRejected,
       page_href = ''https://example.org/'', clock = 9000 \<rparr>"


subsection \<open>The API\<close>

text \<open>The value a handler answers with when it answers 200.\<close>

definition ok_value :: "'a response \<Rightarrow> 'a option" where
  "ok_value r = (case r of Ok200 v \<Rightarrow> Some v | _ \<Rightarrow> None)"

text \<open>The records of one session, in the store's order.\<close>

definition session_docs :: "string \<Rightarrow> doc list \<Rightarrow> doc list" where
  "session_docs sid ds = filter (\<lambda>d. d_session_id d = sid) ds"

text \<open>
  The roll-up of a session, said of the session's records: session start and
  fingerprint of the first of them, the greatest \<open>collected_at\<close> among them, the sizes
  of the event arrays summed over them, and their number.
\<close>

definition spec_row :: "string \<Rightarrow> doc list \<Rightarrow> session_row" where
  "spec_row sid ds =
     (let g = session_docs sid ds in
      \<lparr> r_id = sid,
        r_session_start = d_session_start (hd g),
        r_fingerprint = d_fingerprint (hd g),
        r_last_activity = Max (set (map d_collected_at g)),
        r_page_views_count = sum_list (map (\<lambda>d. length (d_page_views d)) g),
        r_mouse_events_count = sum_list (map (\<lambda>d. length (d_mouse_events d)) g),
        r_click_events_count = sum_list (map (\<lambda>d. length (d_click_events d)) g),
        r_scroll_events_count = sum_list (map (\<lambda>d. length (d_scroll_events d)) g),
        r_key_events_count = sum_list (map (\<lambda>d. length (d_key_events d)) g),
        r_total_records = length g \<rparr>)"

definition rows_ok :: "doc list \<Rightarrow> session_row list \<Rightarrow> bool" where
  "rows_ok ds rs =
     (distinct (map r_id rs) \<and> set (map r_id rs) = set (map d_session_id ds) \<and>
      list_all (\<lambda>r. r = spec_row (r_id r) ds) rs)"

text \<open>The same, field by field, for a row of the sessions endpoint.\<close>

definition rolled_up :: "doc list \<Rightarrow> session_row \<Rightarrow> bool" where
  "rolled_up ds r =
     (session_docs (r_id r) ds \<noteq> [] \<and>
      r_session_start r = d_session_start (hd (session_docs (r_id r) ds)) \<and>
      r_fingerprint r = d_fingerprint (hd (session_docs (r_id r) ds)) \<and>
      r_last_activity r = Max (set (map d_collected_at (session_docs (r_id r) ds))) \<and>
      r_page_views_count r =
        sum_list (map (\<lambda>d. length (d_page_views d)) (session_docs (r_id r) ds)) \<and>
      r_mouse_events_count r =
        sum_list (map (\<lambda>d. length (d_mouse_events d)) (session_docs (r_id r) ds)) \<and>
      r_click_events_count r =
        sum_list (map (\<lambda>d. length (d_click_events d)) (session_docs (r_id r) ds)) \<and>
      r_scroll_events_count r =
        sum_list (map (\<lambda>d. length (d_scroll_events d)) (session_docs (r_id r) ds)) \<and>
      r_key_events_count r =
        sum_list (map (\<lambda>d. length (d_key_events d)) (session_docs (r_id r) ds)) \<and>
      r_total_records r = length (session_docs (r_id r) ds))"

text \<open>The \<open>n\<close> records with the latest \<open>collected_at\<close>.\<close>

definition most_recent :: "nat \<Rightarrow> doc list \<Rightarrow> doc list" where
  "most_recent n ds = take n (newest_first ds)"


subsection \<open>Sample requests and stores\<close>

text \<open>
  A record of session \<open>sid\<close> that the server stored at \<open>ingested\<close> and whose payload said
  it was sent at \<open>sent\<close>, with \<open>pv\<close> page views and \<open>mv\<close> mouse events and nothing else.
\<close>

definition stored_doc :: "nat \<Rightarrow> string \<Rightarrow> int \<Rightarrow> int \<Rightarrow> nat \<Rightarrow> nat \<Rightarrow> doc" where
  "stored_doc i sid ingested sent pv mv =
     \<lparr> d_id = i, d_session_id = sid, d_session_start = 0,
       d_mouse_events = replicate mv [], d_click_events = [], d_scroll_events = [],
       d_key_events = [], d_fingerprint = None, d_page_views = replicate pv [],
       d_collected_at = sent, d_ip_address = None, d_user_agent = None,
       d_createdAt = ingested, d_updatedAt = ingested \<rparr>"

text \<open>Such a record when the browser's clock and the server's agree.\<close>

definition plain_doc :: "nat \<Rightarrow> string \<Rightarrow> int \<Rightarrow> nat \<Rightarrow> nat \<Rightarrow> doc" where
  "plain_doc i sid t pv mv = stored_doc i sid t t pv mv"



text \<open>
  Two records of session \<open>s1\<close>, with one and with two page views, and then one of
  session \<open>s2\<close>.
\<close>

definition pair_store :: store where
  "pair_store =
     \<lparr> docs = [plain_doc 0 ''s1'' 100 1 0, plain_doc 1 ''s1'' 200 2 0,
               plain_doc 2 ''s2'' 300 0 0],
       down = None, refusal = ''refused'' \<rparr>"

text \<open>
  Two records of one session. The first was stored at 1000, from a browser whose clock
  said 9000; the second was stored at 2000, from a browser whose clock said 500.
\<close>

definition skewed_store :: store where
  "skewed_store =
     \<lparr> docs = [stored_doc 0 ''s1'' 1000 9000 0 0, stored_doc 1 ''s1'' 2000 500 0 0],
       down = None, refusal = ''refused'' \<rparr>"


text \<open>
  \<open>n\<close> records with no events, ingested one millisecond apart, in the order they were
  inserted.
\<close>

definition history :: "nat \<Rightarrow> doc list" where
  "history n = map (\<lambda>i. plain_doc i ''s1'' (int i) 0 0) [0..<n]"

text \<open>A thousand such records, and then one with a mouse event, the most recent of all.\<close>

definition crowded_store :: store where
  "crowded_store =
     \<lparr> docs = history 1000 @ [plain_doc 1000 ''s1'' 1000 0 1],
       down = None, refusal = ''refused'' \<rparr>"




definition first_page_query :: query where
  "first_page_query = \<lparr> q_page = Some 1, q_limit = Some 2, q_session_id = Some ''s1'' \<rparr>"

definition second_session_query :: query where
  "second_session_query = \<lparr> q_page = Some 2, q_limit = Some 1, q_session_id = None \<rparr>"

definition default_query :: query where
  "default_query = \<lparr> q_page = None, q_limit = None, q_session_id = None \<rparr>"

section \<open>Properties of the collector\<close>

subsection \<open>Slices\<close>

lemma length_slice_last: "length (slice_last n xs) = min n (length xs)"
  by (simp add: slice_last_def)

lemma slice_last_suffix: "\<exists>dropped. xs = dropped @ slice_last n xs"
  unfolding slice_last_def by (metis append_take_drop_id)

lemma slice_last_nonempty: "xs \<noteq> [] \<Longrightarrow> 0 < n \<Longrightarrow> slice_last n xs \<noteq> []"
  by (cases xs) (auto simp: slice_last_def)

lemma last_slice_last: "xs \<noteq> [] \<Longrightarrow> 0 < n \<Longrightarrow> last (slice_last n xs) = last xs"
  by (simp add: slice_last_def)

lemma map_slice_last: "map f (slice_last n xs) = slice_last n (map f xs)"
  by (simp add: slice_last_def drop_map)

subsection \<open>What a flush does\<close>

lemma sendData_state:
  "fst (sendData br c) = (if queues_empty (bd c) \<or> send_throws br then c else clear_sent c)"
  by (auto simp: sendData_def queues_empty_def send_throws_def Let_def
        split: beacon.splits bool.splits fetch_result.splits)

lemma sendData_skipped: "queues_empty (bd c) \<Longrightarrow> sendData br c = (c, [])"
  by (simp add: sendData_def queues_empty_def)

lemma sendData_sends:
  "\<not> queues_empty (bd c) \<Longrightarrow>
   filter is_send (snd (sendData br c)) =
     (if sendBeacon br = NoBeacon then [] else [Beacon API_ENDPOINT (build_payload br (bd c))]) @
     (if (sendBeacon br = NoBeacon \<or> sendBeacon br = BeaconReturns False) \<and>
         fetch br \<noteq> FetchMissing
      then [Fetch API_ENDPOINT (build_payload br (bd c))] else [])"
  by (auto simp: sendData_def queues_empty_def Let_def
        split: beacon.splits bool.splits fetch_result.splits)

lemma sendData_attempted:
  "\<not> queues_empty (bd c) \<Longrightarrow> \<not> no_transport br \<Longrightarrow>
   attempted (build_payload br (bd c)) (snd (sendData br c))"
  by (auto simp: sendData_def queues_empty_def attempted_def no_transport_def Let_def
        split: beacon.splits bool.splits fetch_result.splits)

lemma sendData_no_transport:
  "\<not> queues_empty (bd c) \<Longrightarrow> no_transport br \<Longrightarrow>
   sendData br c = (c, [Warn ''Bot detection: Error sending data''])"
  by (simp add: sendData_def queues_empty_def no_transport_def)

lemma sendData_not_skipped:
  "\<not> queues_empty (bd c) \<Longrightarrow> snd (sendData br c) \<noteq> []"
  by (auto simp: sendData_def queues_empty_def Let_def
        split: beacon.splits bool.splits fetch_result.splits)

lemma sendData_logged:
  "\<not> queues_empty (bd c) \<Longrightarrow> send_throws br \<Longrightarrow>
   Warn ''Bot detection: Error sending data'' \<in> set (snd (sendData br c))"
  by (auto simp: sendData_def queues_empty_def send_throws_def Let_def
        split: beacon.splits bool.splits fetch_result.splits)

lemma run_append: "run (xs @ ys) c = run ys (run xs c)"
  by (induction xs arbitrary: c) simp_all

lemma sample_moves_Suc:
  "sample_moves (Suc n) = sample_moves n @ [MouseMove sample_pointer (1100 + 100 * int n)]"
  by (simp add: sample_moves_def)

lemma run_sample_moves:
  "n \<le> MAX_EVENTS \<Longrightarrow>
   length (mouse_events (bd (run (sample_moves n) sample_client))) = n \<and>
   lastMouseTime (run (sample_moves n) sample_client) = 1000 + 100 * int n \<and>
   click_events (bd (run (sample_moves n) sample_client)) = [] \<and>
   scroll_events (bd (run (sample_moves n) sample_client)) = [] \<and>
   key_events (bd (run (sample_moves n) sample_client)) = []"
proof (induction n)
  case 0
  then show ?case by (simp add: sample_moves_def sample_client_def init_client_def)
next
  case (Suc n)
  then show ?case
    by (simp add: sample_moves_Suc run_append on_mousemove_def Let_def)
qed

lemma sample_51_moves:
  "length (mouse_events (bd (run (sample_moves 51) sample_client))) = 51"
  using run_sample_moves [of 51] by (simp add: MAX_EVENTS_def)

text \<open>
  C2, as amended. A flush returns at once, with the state as it was and nothing called
  or logged, exactly when the mouse, click, scroll and key arrays are all empty; the
  page-view array is not looked at. When one of the four is not empty, the payload is
  built, with the session id, the session start, the content of all five arrays, the
  fingerprint, the page address and the send time. It is handed to \<^verbatim>\<open>sendBeacon\<close> when
  the browser has it, and to \<^verbatim>\<open>fetch\<close> when the browser has that and the beacon
  is absent or was refused; these are all the calls made. With either transport in the
  browser the payload is so handed to one; with neither, nothing is sent, the state is
  as it was and one warning is logged.
\<close>

theorem flush_skips_iff_four_queues_empty:
  "let p = \<lparr> session_id = session_id (bd c), session_start = session_start (bd c),
             mouse_events = mouse_events (bd c), click_events = click_events (bd c),
             scroll_events = scroll_events (bd c), key_events = key_events (bd c),
             fingerprint = fingerprint (bd c), page_views = page_views (bd c),
             current_url = page_href br, collected_at = clock br \<rparr>;
       effs = snd (sendData br c)
   in (sendData br c = (c, []) \<longleftrightarrow> queues_empty (bd c)) \<and>
      (queues_empty (bd c) \<or>
       filter is_send effs =
         (if sendBeacon br = NoBeacon then [] else [Beacon API_ENDPOINT p]) @
         (if (sendBeacon br = NoBeacon \<or> sendBeacon br = BeaconReturns False) \<and>
             fetch br \<noteq> FetchMissing
          then [Fetch API_ENDPOINT p] else [])) \<and>
      (queues_empty (bd c) \<or> no_transport br \<or> attempted p effs) \<and>
      (queues_empty (bd c) \<or> \<not> no_transport br \<or>
       sendData br c = (c, [Warn ''Bot detection: Error sending data'']))"
proof -
  have a: "sendData br c = (c, [])" if "queues_empty (bd c)"
    using that by (rule sendData_skipped)
  have b: "sendData br c \<noteq> (c, [])" if "\<not> queues_empty (bd c)"
    using sendData_not_skipped [OF that, of br] by auto
  have iff: "sendData br c = (c, []) \<longleftrightarrow> queues_empty (bd c)"
    using a b by blast
  show ?thesis
  proof (cases "queues_empty (bd c)")
    case True
    then show ?thesis using iff by (simp add: Let_def)
  next
    case False
    note s = sendData_sends [OF False, of br]
    show ?thesis
    proof (cases "no_transport br")
      case True
      then show ?thesis
        using iff False s sendData_no_transport [OF False True]
        by (simp add: Let_def build_payload_def no_transport_def)
    next
      case nt: False
      then show ?thesis
        using iff False s sendData_attempted [OF False nt]
        by (simp add: Let_def build_payload_def)
    qed
  qed
qed

text \<open>
  After 51 pointer movements the mouse array is not empty. In a browser that refuses
  the beacon a flush hands the payload to both transports, in turn; in a browser with
  neither transport it logs the warning and sends nothing.
\<close>

theorem flush_skips_witness:
  "\<not> queues_empty (bd (run (sample_moves 51) sample_client)) \<and>
   \<not> no_transport failing_browser \<and> no_transport bare_browser \<and>
   sendData failing_browser (run (sample_moves 51) sample_client) \<noteq>
     (run (sample_moves 51) sample_client, []) \<and>
   attempted
     \<lparr> session_id = session_id (bd (run (sample_moves 51) sample_client)),
       session_start = session_start (bd (run (sample_moves 51) sample_client)),
       mouse_events = mouse_events (bd (run (sample_moves 51) sample_client)),
       click_events = [], scroll_events = [], key_events = [],
       fingerprint = fingerprint (bd (run (sample_moves 51) sample_client)),
       page_views = page_views (bd (run (sample_moves 51) sample_client)),
       current_url = ''https://example.org/'', collected_at = 9000 \<rparr>
     (snd (sendData failing_browser (run (sample_moves 51) sample_client))) \<and>
   length (filter is_send
     (snd (sendData failing_browser (run (sample_moves 51) sample_client)))) = 2 \<and>
   sendData bare_browser (run (sample_moves 51) sample_client) =
     (run (sample_moves 51) sample_client, [Warn ''Bot detection: Error sending data''])"
proof -
  let ?c = "run (sample_moves 51) sample_client"
  have ne: "\<not> queues_empty (bd ?c)"
    using sample_51_moves by (auto simp: queues_empty_def)
  have q: "click_events (bd ?c) = []" "scroll_events (bd ?c) = []" "key_events (bd ?c) = []"
    using run_sample_moves [of 51] by (simp_all add: MAX_EVENTS_def)
  have t: "\<not> no_transport failing_browser" "no_transport bare_browser"
    by (simp_all add: no_transport_def failing_browser_def bare_browser_def)
  have f: "sendBeacon failing_browser = BeaconReturns False" "fetch failing_browser = FetchRejected"
    "page_href failing_browser = ''https://example.org/''" "clock failing_browser = 9000"
    by (simp_all add: failing_browser_def)
  show ?thesis
    using flush_skips_iff_four_queues_empty [of ?c failing_browser]
      flush_skips_iff_four_queues_empty [of ?c bare_browser] ne q t f
    by (simp add: Let_def)
qed

text \<open>
  The claim as it was stated fails twice. With five arrays, it fails in the state the
  script starts in: the page-view array holds the first page view, and the flush is
  skipped. And with the mouse array not empty, a flush in a browser with neither
  transport makes no call at all.
\<close>

theorem flush_five_queues_counterexample:
  "\<not> (sendData failing_browser sample_client = (sample_client, []) \<longleftrightarrow>
       (mouse_events (bd sample_client) = [] \<and> click_events (bd sample_client) = [] \<and>
        scroll_events (bd sample_client) = [] \<and> key_events (bd sample_client) = [] \<and>
        page_views (bd sample_client) = [])) \<and>
   mouse_events (bd (run (sample_moves 51) sample_client)) \<noteq> [] \<and>
   filter is_send (snd (sendData bare_browser (run (sample_moves 51) sample_client))) = []"
proof -
  have ne: "mouse_events (bd (run (sample_moves 51) sample_client)) \<noteq> []"
    using sample_51_moves by auto
  have "\<not> (sendData failing_browser sample_client = (sample_client, []) \<longleftrightarrow>
       (mouse_events (bd sample_client) = [] \<and> click_events (bd sample_client) = [] \<and>
        scroll_events (bd sample_client) = [] \<and> key_events (bd sample_client) = [] \<and>
        page_views (bd sample_client) = []))"
    by (simp add: sendData_def sample_client_def init_client_def)
  moreover have
    "filter is_send (snd (sendData bare_browser (run (sample_moves 51) sample_client))) = []"
    using ne by (simp add: sendData_def bare_browser_def)
  ultimately show ?thesis
    using ne by simp
qed

text \<open>
  C3, as amended. When a call to a transport throws, or the reference to a missing
  \<^verbatim>\<open>fetch\<close> does, the flush leaves every array as it was, and it logs a warning if it
  was not skipped. After any other flush that was not skipped, whether the beacon was
  accepted or the replacing request later succeeds or fails, each of the four arrays is
  the end of what it was, of length the minimum of its old length and its floor: 50
  mouse, 20 click, 10 scroll and 30 key events.
\<close>

theorem flush_truncates_unless_send_throws:
  "(send_throws br \<longrightarrow> fst (sendData br c) = c) \<and>
   (\<not> queues_empty (bd c) \<and> send_throws br \<longrightarrow>
      Warn ''Bot detection: Error sending data'' \<in> set (snd (sendData br c))) \<and>
   (\<not> queues_empty (bd c) \<and> \<not> send_throws br \<longrightarrow>
      (let b = bd c; b' = bd (fst (sendData br c)) in
         length (mouse_events b') \<le> 50 \<and> length (click_events b') \<le> 20 \<and>
         length (scroll_events b') \<le> 10 \<and> length (key_events b') \<le> 30 \<and>
         length (mouse_events b') = min 50 (length (mouse_events b)) \<and>
         length (click_events b') = min 20 (length (click_events b)) \<and>
         length (scroll_events b') = min 10 (length (scroll_events b)) \<and>
         length (key_events b') = min 30 (length (key_events b)) \<and>
         (\<exists>sent. mouse_events b = sent @ mouse_events b') \<and>
         (\<exists>sent. click_events b = sent @ click_events b') \<and>
         (\<exists>sent. scroll_events b = sent @ scroll_events b') \<and>
         (\<exists>sent. key_events b = sent @ key_events b')))"
proof (intro conjI impI)
  assume "send_throws br"
  then show "fst (sendData br c) = c"
    by (simp add: sendData_state)
next
  assume "\<not> queues_empty (bd c) \<and> send_throws br"
  then show "Warn ''Bot detection: Error sending data'' \<in> set (snd (sendData br c))"
    by (simp add: sendData_logged)
next
  assume "\<not> queues_empty (bd c) \<and> \<not> send_throws br"
  then have cleared: "fst (sendData br c) = clear_sent c"
    by (simp add: sendData_state)
  show "let b = bd c; b' = bd (fst (sendData br c)) in
         length (mouse_events b') \<le> 50 \<and> length (click_events b') \<le> 20 \<and>
         length (scroll_events b') \<le> 10 \<and> length (key_events b') \<le> 30 \<and>
         length (mouse_events b') = min 50 (length (mouse_events b)) \<and>
         length (click_events b') = min 20 (length (click_events b)) \<and>
         length (scroll_events b') = min 10 (length (scroll_events b)) \<and>
         length (key_events b') = min 30 (length (key_events b)) \<and>
         (\<exists>sent. mouse_events b = sent @ mouse_events b') \<and>
         (\<exists>sent. click_events b = sent @ click_events b') \<and>
         (\<exists>sent. scroll_events b = sent @ scroll_events b') \<and>
         (\<exists>sent. key_events b = sent @ key_events b')"
    unfolding cleared
    by (simp add: clear_sent_def Let_def length_slice_last slice_last_suffix)
qed

text \<open>
  After 51 pointer movements, a flush whose beacon is refused and whose replacing
  request fails keeps 50 mouse events.
\<close>

theorem flush_truncates_witness:
  "\<not> queues_empty (bd (run (sample_moves 51) sample_client)) \<and>
   \<not> send_throws failing_browser \<and>
   length (mouse_events (bd (fst (sendData failing_browser
     (run (sample_moves 51) sample_client))))) = 50"
proof -
  have ne: "\<not> queues_empty (bd (run (sample_moves 51) sample_client))"
    using sample_51_moves by (auto simp: queues_empty_def)
  have nt: "\<not> send_throws failing_browser"
    by (simp add: send_throws_def failing_browser_def)
  show ?thesis
    using flush_truncates_unless_send_throws
            [of failing_browser "run (sample_moves 51) sample_client"]
          sample_51_moves ne nt
    by (simp add: Let_def)
qed

text \<open>
  The claim as it was stated, for every flush that was not skipped, fails where the
  beacon call throws: the call was made, and the 51 mouse events are all still there.
\<close>

theorem flush_throw_counterexample:
  "snd (sendData throwing_browser (run (sample_moves 51) sample_client)) \<noteq> [] \<and>
   \<not> length (mouse_events (bd (fst (sendData throwing_browser
       (run (sample_moves 51) sample_client))))) \<le> 50"
proof -
  have ne: "mouse_events (bd (run (sample_moves 51) sample_client)) \<noteq> []"
    using sample_51_moves by auto
  show ?thesis
    using sample_51_moves ne by (simp add: sendData_def throwing_browser_def)
qed

text \<open>
  C10. A flush changes nothing but the mouse, click, scroll and key arrays: the session
  id, the session start, the fingerprint and the page-view array are what they were
  (and so is the time of the last mouse sample).
\<close>

theorem flush_frame:
  "session_id (bd (fst (sendData br c))) = session_id (bd c) \<and>
   session_start (bd (fst (sendData br c))) = session_start (bd c) \<and>
   fingerprint (bd (fst (sendData br c))) = fingerprint (bd c) \<and>
   page_views (bd (fst (sendData br c))) = page_views (bd c) \<and>
   lastMouseTime (fst (sendData br c)) = lastMouseTime c"
proof (cases "queues_empty (bd c) \<or> send_throws br")
  case True
  then have "fst (sendData br c) = c"
    by (simp add: sendData_state)
  then show ?thesis by simp
next
  case False
  then have "fst (sendData br c) = clear_sent c"
    by (simp add: sendData_state)
  then show ?thesis by (simp add: clear_sent_def)
qed

subsection \<open>The caps on the arrays\<close>

lemma bounded_clear_sent: "bounded c \<Longrightarrow> bounded (clear_sent c)"
  by (auto simp: bounded_def clear_sent_def length_slice_last MAX_EVENTS_def)

lemma bounded_sendData: "bounded c \<Longrightarrow> bounded (fst (sendData br c))"
  by (simp add: sendData_state bounded_clear_sent)

lemma bounded_push_page_view: "bounded c \<Longrightarrow> bounded (push_page_view ty pg now c)"
  by (simp add: bounded_def push_page_view_def)

lemma bounded_mousemove: "bounded c \<Longrightarrow> bounded (on_mousemove e now c)"
  by (simp add: bounded_def on_mousemove_def Let_def length_slice_last MAX_EVENTS_def)

lemma bounded_click: "bounded c \<Longrightarrow> bounded (on_click e now c)"
  by (simp add: bounded_def on_click_def Let_def length_slice_last MAX_EVENTS_def)

lemma bounded_scroll: "bounded c \<Longrightarrow> bounded (on_scroll_timeout w now c)"
  by (simp add: bounded_def on_scroll_timeout_def Let_def length_slice_last MAX_EVENTS_def)

lemma bounded_keydown: "bounded c \<Longrightarrow> bounded (on_keydown e now c)"
  by (simp add: bounded_def on_keydown_def Let_def length_slice_last MAX_EVENTS_def)

lemma bounded_step: "bounded c \<Longrightarrow> bounded (fst (step ev c))"
  by (cases ev)
     (simp_all add: bounded_mousemove bounded_click bounded_scroll bounded_keydown
        bounded_push_page_view bounded_sendData on_popstate_def triggerPageView_def
        on_visibilitychange_def on_beforeunload_def)

lemma bounded_run: "bounded c \<Longrightarrow> bounded (run evs c)"
  by (induction evs arbitrary: c) (simp_all add: bounded_step)

lemma bounded_init: "bounded (init_client sid fp t0 t1 t2 pg timing)"
  by (simp add: bounded_def init_client_def)

lemma run_pushstate:
  "length (page_views (bd (run (replicate n (PushState pg t)) c))) =
   length (page_views (bd c)) + n"
  by (induction n arbitrary: c) (simp_all add: triggerPageView_def push_page_view_def)

text \<open>
  C4, as amended. In every state the script can reach, the mouse, click, scroll and key
  arrays hold at most \<open>MAX_EVENTS\<close> events. Their listeners follow the append policy, with
  500, 200, 100 and 300 events kept when the cap is passed; the mouse listener does so
  for the movements it samples. A page view is appended to its array with no cap.
\<close>

theorem four_queues_capped:
  "(let r = run evs (init_client sid fp t0 t1 t2 pg timing) in
      length (mouse_events (bd r)) \<le> MAX_EVENTS \<and>
      length (click_events (bd r)) \<le> MAX_EVENTS \<and>
      length (scroll_events (bd r)) \<le> MAX_EVENTS \<and>
      length (key_events (bd r)) \<le> MAX_EVENTS) \<and>
   (now - lastMouseTime c \<le> 50 \<or>
    (\<exists>ev. m_t ev = now \<and>
       mouse_events (bd (on_mousemove e now c)) = spec_append 500 (mouse_events (bd c)) ev)) \<and>
   (\<exists>ev. c_t ev = now \<and>
       click_events (bd (on_click e now c)) = spec_append 200 (click_events (bd c)) ev) \<and>
   (\<exists>ev. s_t ev = now \<and>
       scroll_events (bd (on_scroll_timeout w now c)) =
         spec_append 100 (scroll_events (bd c)) ev) \<and>
   (\<exists>ev. map_of ev ''t'' = Some (JNum now) \<and>
       key_events (bd (on_keydown k now c)) = spec_append 300 (key_events (bd c)) ev) \<and>
   (\<exists>pv. pv_t pv = now \<and>
       page_views (bd (push_page_view ty pg' now c)) = page_views (bd c) @ [pv])"
proof -
  have inv: "bounded (run evs (init_client sid fp t0 t1 t2 pg timing))"
    by (rule bounded_run [OF bounded_init])
  have mouse: "now - lastMouseTime c \<le> 50 \<or>
    (\<exists>ev. m_t ev = now \<and>
       mouse_events (bd (on_mousemove e now c)) = spec_append 500 (mouse_events (bd c)) ev)"
    by (simp add: on_mousemove_def spec_append_def slice_last_def Let_def)
  have click: "\<exists>ev. c_t ev = now \<and>
       click_events (bd (on_click e now c)) = spec_append 200 (click_events (bd c)) ev"
    by (simp add: on_click_def spec_append_def slice_last_def Let_def)
  have scroll: "\<exists>ev. s_t ev = now \<and>
       scroll_events (bd (on_scroll_timeout w now c)) =
         spec_append 100 (scroll_events (bd c)) ev"
    by (simp add: on_scroll_timeout_def spec_append_def slice_last_def Let_def)
  have keyd: "\<exists>ev. map_of ev ''t'' = Some (JNum now) \<and>
       key_events (bd (on_keydown k now c)) = spec_append 300 (key_events (bd c)) ev"
    by (rule exI [of _ "key_object k now"])
       (simp add: on_keydown_def spec_append_def slice_last_def Let_def key_object_def)
  have pv: "\<exists>pv. pv_t pv = now \<and>
       page_views (bd (push_page_view ty pg' now c)) = page_views (bd c) @ [pv]"
    by (simp add: push_page_view_def)
  show ?thesis
    using inv mouse click scroll keyd pv unfolding bounded_def Let_def by blast
qed

text \<open>
  A pointer movement 100 ms after the script started is appended by the policy, and
  two key presses leave the key array within the cap.
\<close>

theorem four_queues_capped_witness:
  "\<not> 1100 - lastMouseTime sample_client \<le> 50 \<and>
   (\<exists>ev. m_t ev = 1100 \<and>
      mouse_events (bd (on_mousemove sample_pointer 1100 sample_client)) =
        spec_append 500 (mouse_events (bd sample_client)) ev) \<and>
   length (key_events (bd (run [KeyDown sample_key 1100, KeyDown sample_key 1200]
     sample_client))) \<le> MAX_EVENTS"
proof -
  have t: "\<not> 1100 - lastMouseTime sample_client \<le> 50"
    by (simp add: sample_client_def init_client_def)
  have "length (key_events (bd (run [KeyDown sample_key 1100, KeyDown sample_key 1200]
      (init_client ''sess_1000_abc'' [] 1000 1000 1000 sample_page None)))) \<le> MAX_EVENTS"
    using four_queues_capped [of "[KeyDown sample_key 1100, KeyDown sample_key 1200]"
        "''sess_1000_abc''" "[]" 1000 1000 1000 sample_page None]
    by (simp add: Let_def)
  then have k: "length (key_events (bd (run [KeyDown sample_key 1100, KeyDown sample_key 1200]
      sample_client))) \<le> MAX_EVENTS"
    by (simp add: sample_client_def)
  show ?thesis
    using four_queues_capped [of "[]" "[]" "[]" 0 0 0 sample_page None 1100 sample_client
        sample_pointer] t k
    by simp
qed

text \<open>
  The claim as it was stated, for all five arrays, fails for the page views: after 1000
  calls of the patched \<^verbatim>\<open>history.pushState\<close> the array holds more than \<open>MAX_EVENTS\<close>
  entries.
\<close>

theorem page_view_queue_counterexample:
  "\<not> length (page_views (bd (run (replicate 1000 (PushState sample_page 2000))
        sample_client))) \<le> MAX_EVENTS"
  by (simp add: run_pushstate sample_client_def init_client_def MAX_EVENTS_def)

subsection \<open>The pace of the mouse samples\<close>

lemma gaps_tail: "gaps_at_least d (a # ts) \<Longrightarrow> gaps_at_least d ts"
  by (cases ts) auto

lemma gaps_drop: "gaps_at_least d ts \<Longrightarrow> gaps_at_least d (drop n ts)"
proof (induction n arbitrary: ts)
  case 0
  then show ?case by simp
next
  case (Suc n)
  then show ?case by (cases ts) (auto dest: gaps_tail)
qed

lemma gaps_slice_last: "gaps_at_least d ts \<Longrightarrow> gaps_at_least d (slice_last n ts)"
  by (simp add: slice_last_def gaps_drop)

lemma gaps_snoc:
  "gaps_at_least d (ts @ [t]) = (gaps_at_least d ts \<and> (ts = [] \<or> d \<le> t - last ts))"
  by (induction d ts rule: gaps_at_least.induct) auto

lemma paced_clear_sent: "paced c \<Longrightarrow> paced (clear_sent c)"
proof (cases "mouse_events (bd c) = []")
  case True
  assume "paced c"
  then show ?thesis using True
    by (simp add: paced_def clear_sent_def slice_last_def)
next
  case False
  assume "paced c"
  then show ?thesis using False
    by (simp add: paced_def clear_sent_def map_slice_last gaps_slice_last last_slice_last)
qed

lemma paced_sendData: "paced c \<Longrightarrow> paced (fst (sendData br c))"
  by (simp add: sendData_state paced_clear_sent)

lemma paced_push_page_view: "paced c \<Longrightarrow> paced (push_page_view ty pg now c)"
  by (simp add: paced_def push_page_view_def)

lemma paced_mousemove: "paced c \<Longrightarrow> paced (on_mousemove e now c)"
proof (cases "mouse_events (bd c) = []")
  case True
  assume "paced c"
  then show ?thesis using True
    by (simp add: paced_def on_mousemove_def Let_def MAX_EVENTS_def)
next
  case False
  assume "paced c"
  then show ?thesis using False
    by (simp add: paced_def on_mousemove_def Let_def map_slice_last gaps_slice_last
          gaps_snoc last_slice_last last_map)
qed

lemma paced_step: "paced c \<Longrightarrow> paced (fst (step ev c))"
proof (cases ev)
  case (MouseMove e now)
  assume "paced c"
  then show ?thesis using MouseMove by (simp add: paced_mousemove)
next
  case (Click e now)
  assume "paced c"
  then show ?thesis using Click by (simp add: paced_def on_click_def Let_def)
next
  case (ScrollTimeout w now)
  assume "paced c"
  then show ?thesis using ScrollTimeout
    by (simp add: paced_def on_scroll_timeout_def Let_def)
next
  case (KeyDown e now)
  assume "paced c"
  then show ?thesis using KeyDown by (simp add: paced_def on_keydown_def Let_def)
qed (simp_all add: paced_push_page_view paced_sendData on_popstate_def triggerPageView_def
        on_visibilitychange_def on_beforeunload_def)

lemma paced_run: "paced c \<Longrightarrow> paced (run evs c)"
  by (induction evs arbitrary: c) (simp_all add: paced_step)

lemma paced_init: "paced (init_client sid fp t0 t1 t2 pg timing)"
  by (simp add: paced_def init_client_def)

lemma mousemove_appends_only_after_50:
  "mouse_events (bd (on_mousemove e now c)) = mouse_events (bd c) \<or>
   50 \<le> now - lastMouseTime c"
  by (simp add: on_mousemove_def)

text \<open>
  C5. In every state the script can reach, the timestamps of neighbouring mouse events
  in the buffer are at least 50 ms apart, and the time the listener compares with is
  that of the last mouse event appended; a pointer movement leaves the mouse array as
  it was unless at least 50 ms have passed since that time.
\<close>

theorem mouse_rate_limit:
  "let c = run evs (init_client sid fp t0 t1 t2 pg timing) in
     gaps_at_least 50 (map m_t (mouse_events (bd c))) \<and>
     (mouse_events (bd c) = [] \<or> lastMouseTime c = m_t (last (mouse_events (bd c)))) \<and>
     (mouse_events (bd (on_mousemove e now c)) = mouse_events (bd c) \<or>
      50 \<le> now - lastMouseTime c)"
  using paced_run [OF paced_init, of evs sid fp t0 t1 t2 pg timing]
  by (simp add: paced_def Let_def mousemove_appends_only_after_50)

text \<open>
  A pointer movement 100 ms after the script started is appended, 50 ms or more having
  passed; 51 movements 100 ms apart are all appended, and they are spaced.
\<close>

theorem mouse_rate_limit_witness:
  "mouse_events (bd (on_mousemove sample_pointer 1100 sample_client)) \<noteq>
     mouse_events (bd sample_client) \<and>
   50 \<le> 1100 - lastMouseTime sample_client \<and>
   length (mouse_events (bd (run (sample_moves 51) sample_client))) = 51 \<and>
   gaps_at_least 50 (map m_t (mouse_events (bd (run (sample_moves 51) sample_client))))"
proof -
  have a: "mouse_events (bd (on_mousemove sample_pointer 1100 sample_client)) \<noteq>
     mouse_events (bd sample_client)"
    by (simp add: on_mousemove_def sample_client_def init_client_def Let_def MAX_EVENTS_def)
  have b: "50 \<le> 1100 - lastMouseTime sample_client"
    using mouse_rate_limit [of "[]" "''sess_1000_abc''" "[]" 1000 1000 1000 sample_page None
        sample_pointer 1100] a
    by (simp add: Let_def sample_client_def)
  have c: "gaps_at_least 50 (map m_t (mouse_events (bd (run (sample_moves 51) sample_client))))"
    using mouse_rate_limit [of "sample_moves 51" "''sess_1000_abc''" "[]" 1000 1000 1000
        sample_page None sample_pointer 1100]
    by (simp add: Let_def sample_client_def)
  show ?thesis
    using a b c sample_51_moves by simp
qed

subsection \<open>What a key event carries\<close>

lemma keydown_stores_keyCode:
  "map_of (last (key_events (bd (on_keydown e now c)))) ''keyCode'' = Some (JNum (keyCode e))"
  by (simp add: on_keydown_def Let_def last_slice_last key_object_def)

text \<open>
  C1. The claim is that a key event carries a timestamp, modifier flags and a location
  code, and nothing that tells which key was pressed. When the key A is pressed, the
  event the listener appends has a \<open>keyCode\<close> field, which is not among the fields
  allowed, and its value 65 is the code of that key.
\<close>

theorem keydown_captures_keyCode:
  "key_events (bd (on_keydown sample_key 2000 sample_client)) =
     [[(''t'', JNum 2000), (''keyCode'', JNum 65), (''location'', JNum 0),
       (''ctrl'', JBool False), (''shift'', JBool False), (''alt'', JBool False),
       (''meta'', JBool False)]] \<and>
   ''keyCode'' \<notin> set allowed_key_fields"
  by (simp add: on_keydown_def Let_def key_object_def sample_key_def sample_client_def
        init_client_def MAX_EVENTS_def allowed_key_fields_def)





section \<open>Properties of the API\<close>

subsection \<open>What the schema declares for a key event\<close>

text \<open>
  Of the fields of the key event that the collector builds, the key event schema
  declares the timestamp and no other.
\<close>

lemma key_event_declared_part:
  "declared_part keyEventSchema (key_object e now) = [(''t'', JNum now)]"
  by (simp add: declared_part_def keyEventSchema_def key_object_def)

subsection \<open>The collection endpoint\<close>






text \<open>The other falsy values a JSON body can give \<open>session_id\<close> are refused as well.\<close>

lemma collect_other_falsy:
  "get_field (req_body req) ''session_id'' \<in> {JNull, JBool False, JNum 0} \<Longrightarrow>
   collectBehavior production req outcome = (Err400 ''session_id is required'', [])"
  by (auto simp: collectBehavior_def)



subsection \<open>Pages of records\<close>

lemma ceil_div_ceiling: "ceil_div a b = \<lceil>real_of_int a / real_of_int b\<rceil>"
proof -
  have "\<lfloor>real_of_int (- a) / real_of_int b\<rfloor> = (- a) div b"
    by (rule floor_divide_of_int_eq)
  then show ?thesis
    by (simp add: ceil_div_def ceiling_def)
qed






lemma page_of_eq:
  "q_page q = Some page \<or> page = 1 \<and> (q_page q = None \<or> q_page q = Some 0) \<Longrightarrow>
   1 \<le> page \<Longrightarrow> page_of q = page"
  by (auto simp: page_of_def or_default_def)

lemma limit_of_eq:
  "q_limit q = Some per \<or> per = 50 \<and> (q_limit q = None \<or> q_limit q = Some 0) \<Longrightarrow>
   1 \<le> per \<Longrightarrow> limit_of q = per"
  by (auto simp: limit_of_def or_default_def)






subsection \<open>Sessions\<close>

lemma group_snoc: "group_by_session (ds @ [d]) = upsert d (group_by_session ds)"
  by (simp add: group_by_session_def)

lemma upsert_ids: "set (map r_id (upsert d rs)) = insert (d_session_id d) (set (map r_id rs))"
  by (induction rs) (auto simp: new_row_def accumulate_def)

lemma upsert_distinct: "distinct (map r_id rs) \<Longrightarrow> distinct (map r_id (upsert d rs))"
proof (induction rs)
  case Nil
  then show ?case by simp
next
  case (Cons r rs)
  have "set (map r_id (upsert d rs)) = insert (d_session_id d) (set (map r_id rs))"
    by (rule upsert_ids)
  with Cons show ?case by (auto simp: accumulate_def)
qed

lemma upsert_absent:
  "d_session_id d \<notin> set (map r_id rs) \<Longrightarrow> upsert d rs = rs @ [new_row d]"
  by (induction rs) auto

lemma session_docs_snoc_other:
  "sid \<noteq> d_session_id d \<Longrightarrow> session_docs sid (ds @ [d]) = session_docs sid ds"
  by (simp add: session_docs_def)

lemma session_docs_snoc_same:
  "session_docs (d_session_id d) (ds @ [d]) = session_docs (d_session_id d) ds @ [d]"
  by (simp add: session_docs_def)

lemma session_docs_empty: "session_docs sid ds = [] \<longleftrightarrow> sid \<notin> set (map d_session_id ds)"
  by (auto simp: session_docs_def filter_empty_conv)

lemma spec_row_other:
  "sid \<noteq> d_session_id d \<Longrightarrow> spec_row sid (ds @ [d]) = spec_row sid ds"
  by (simp add: spec_row_def session_docs_snoc_other)

lemma spec_row_new:
  "d_session_id d \<notin> set (map d_session_id ds) \<Longrightarrow> spec_row (d_session_id d) (ds @ [d]) = new_row d"
proof -
  assume "d_session_id d \<notin> set (map d_session_id ds)"
  then have "session_docs (d_session_id d) ds = []"
    using session_docs_empty [of "d_session_id d" ds] by simp
  then show ?thesis
    by (simp add: spec_row_def session_docs_snoc_same new_row_def)
qed

lemma Max_snoc: "xs \<noteq> [] \<Longrightarrow> Max (set (xs @ [x])) = max (Max (set xs)) (x::int)"
  by (simp add: max.commute)

lemma spec_row_more:
  assumes "d_session_id d \<in> set (map d_session_id ds)"
  shows "spec_row (d_session_id d) (ds @ [d]) = accumulate (spec_row (d_session_id d) ds) d"
proof -
  from assms have ne: "session_docs (d_session_id d) ds \<noteq> []"
    using session_docs_empty [of "d_session_id d" ds] by simp
  then have ne': "map d_collected_at (session_docs (d_session_id d) ds) \<noteq> []"
    by simp
  have mx: "Max (set (map d_collected_at (session_docs (d_session_id d) ds @ [d]))) =
      max (Max (set (map d_collected_at (session_docs (d_session_id d) ds)))) (d_collected_at d)"
    using Max_snoc [OF ne'] by simp
  show ?thesis
    using ne mx
    by (simp add: spec_row_def session_docs_snoc_same accumulate_def Let_def del: set_map set_append)
qed

lemma list_all_other:
  assumes "list_all (\<lambda>r. r = spec_row (r_id r) ds) rs"
    and "d_session_id d \<notin> set (map r_id rs)"
  shows "list_all (\<lambda>r. r = spec_row (r_id r) (ds @ [d])) rs"
  using assms
proof (induction rs)
  case Nil
  then show ?case by simp
next
  case (Cons r rs)
  then have "r_id r \<noteq> d_session_id d" by auto
  then have "spec_row (r_id r) (ds @ [d]) = spec_row (r_id r) ds"
    by (rule spec_row_other)
  with Cons show ?case by simp
qed

lemma upsert_present:
  assumes "d_session_id d \<in> set (map r_id rs)"
    and "distinct (map r_id rs)"
    and "list_all (\<lambda>r. r = spec_row (r_id r) ds) rs"
    and "d_session_id d \<in> set (map d_session_id ds)"
  shows "list_all (\<lambda>r. r = spec_row (r_id r) (ds @ [d])) (upsert d rs)"
  using assms(1-3)
proof (induction rs)
  case Nil
  then show ?case by simp
next
  case (Cons r rs)
  show ?case
  proof (cases "r_id r = d_session_id d")
    case True
    from Cons.prems have r: "r = spec_row (d_session_id d) ds"
      using True by simp
    have "accumulate r d = spec_row (d_session_id d) (ds @ [d])"
      using spec_row_more [OF assms(4)] r by simp
    moreover have "r_id (accumulate r d) = d_session_id d"
      using True by (simp add: accumulate_def)
    moreover have "list_all (\<lambda>r. r = spec_row (r_id r) (ds @ [d])) rs"
      using Cons.prems True by (intro list_all_other) auto
    ultimately show ?thesis using True by simp
  next
    case False
    then have "spec_row (r_id r) (ds @ [d]) = spec_row (r_id r) ds"
      by (intro spec_row_other)
    moreover have "list_all (\<lambda>r. r = spec_row (r_id r) (ds @ [d])) (upsert d rs)"
      using Cons False by auto
    ultimately show ?thesis using Cons.prems False by simp
  qed
qed

lemma rows_ok_step:
  assumes "rows_ok ds rs"
  shows "rows_ok (ds @ [d]) (upsert d rs)"
proof -
  from assms have dist: "distinct (map r_id rs)"
    and ids: "set (map r_id rs) = set (map d_session_id ds)"
    and rows: "list_all (\<lambda>r. r = spec_row (r_id r) ds) rs"
    by (simp_all add: rows_ok_def)
  have "list_all (\<lambda>r. r = spec_row (r_id r) (ds @ [d])) (upsert d rs)"
  proof (cases "d_session_id d \<in> set (map r_id rs)")
    case True
    then show ?thesis
      using upsert_present [OF True dist rows] ids by simp
  next
    case False
    then have "r_id (new_row d) = d_session_id d" "new_row d = spec_row (d_session_id d) (ds @ [d])"
      using spec_row_new [of d ds] ids by (simp_all add: new_row_def)
    then show ?thesis
      using False list_all_other [OF rows False] by (simp add: upsert_absent)
  qed
  moreover have "distinct (map r_id (upsert d rs))"
    using dist by (rule upsert_distinct)
  moreover have "set (map r_id (upsert d rs)) = set (map d_session_id (ds @ [d]))"
    using upsert_ids [of d rs] ids by auto
  ultimately show ?thesis
    by (simp add: rows_ok_def)
qed

lemma rows_ok_group: "rows_ok ds (group_by_session ds)"
proof (induction ds rule: rev_induct)
  case Nil
  then show ?case by (simp add: rows_ok_def group_by_session_def)
next
  case (snoc d ds)
  then show ?case by (simp add: group_snoc rows_ok_step)
qed

lemma spec_row_rolled_up:
  "session_docs sid ds \<noteq> [] \<Longrightarrow> rolled_up ds (spec_row sid ds)"
  by (simp add: rolled_up_def spec_row_def Let_def)

lemma group_rolled_up: "r \<in> set (group_by_session ds) \<Longrightarrow> rolled_up ds r"
proof -
  assume r: "r \<in> set (group_by_session ds)"
  have ok: "rows_ok ds (group_by_session ds)"
    by (rule rows_ok_group)
  then have eq: "r = spec_row (r_id r) ds"
    using r by (auto simp: rows_ok_def list_all_iff)
  have "r_id r \<in> set (map r_id (group_by_session ds))"
    using r by simp
  then have "r_id r \<in> set (map d_session_id ds)"
    using ok unfolding rows_ok_def by blast
  then have "session_docs (r_id r) ds \<noteq> []"
    using session_docs_empty [of "r_id r" ds] by blast
  then have "rolled_up ds (spec_row (r_id r) ds)"
    by (rule spec_row_rolled_up)
  then show ?thesis
    by (rule ssubst [of r "spec_row (r_id r) ds" "rolled_up ds", OF eq])
qed

lemma rows_sorted:
  "sorted_wrt (\<lambda>a b. r_last_activity b \<le> r_last_activity a)
     (sort_key (\<lambda>r. - r_last_activity r) rs)"
proof -
  have "sorted (map (\<lambda>r. - r_last_activity r) (sort_key (\<lambda>r. - r_last_activity r) rs))"
    by (rule sorted_sort_key)
  then show ?thesis
    by (simp add: sorted_map)
qed

lemma getSessions_reachable:
  assumes "down st = None" "1 \<le> page_of q" "1 \<le> limit_of q"
  shows "getSessions production q st =
     Ok200 (take (nat (limit_of q)) (drop (nat ((page_of q - 1) * limit_of q))
              (sort_key (\<lambda>r. - r_last_activity r) (group_by_session (docs st)))),
            \<lparr> sp_current = page_of q,
              sp_total =
                ceil_div (int (length (remdups (map d_session_id (docs st))))) (limit_of q),
              sp_totalSessions = length (remdups (map d_session_id (docs st))) \<rparr>)"
proof -
  have "\<not> (page_of q - 1) * limit_of q < 0"
    using assms by (simp add: mult_less_0_iff)
  then show ?thesis
    using assms
    by (simp add: getSessions_def aggregate_sessions_def distinct_session_ids_def Let_def)
qed

text \<open>
  C8, as amended. Let the store be reachable, and let the page be what \<open>page\<close> parses
  to, or 1 when it is absent or 0, and the limit what \<open>limit\<close> parses to, or 50 when
  it is absent or 0, both at least 1. Then the sessions endpoint answers 200. There is
  one row for each session id in the store; a row holds the session start and the
  fingerprint of the session's first record, as its last activity the greatest
  \<open>collected_at\<close> among the session's records, for each kind of event the sizes of the
  arrays summed over the session's records, and the number of those records. The rows
  are ordered by last activity, latest first, and the answer holds those after the first
  \<open>(page - 1) * limit\<close>, at most \<open>limit\<close> of them, with the number of distinct
  sessions and the number of pages it makes.
\<close>

theorem sessions_rollup:
  assumes "down st = None"
    and "q_page q = Some page \<or> page = 1 \<and> (q_page q = None \<or> q_page q = Some 0)"
    and "q_limit q = Some per \<or> per = 50 \<and> (q_limit q = None \<or> q_limit q = Some 0)"
    and "1 \<le> page" and "1 \<le> per"
  shows "\<exists>rows pg groups.
     getSessions production q st = Ok200 (rows, pg) \<and>
     rows = take (nat per) (drop (nat ((page - 1) * per)) groups) \<and>
     length rows \<le> nat per \<and>
     sorted_wrt (\<lambda>a b. r_last_activity b \<le> r_last_activity a) groups \<and>
     distinct (map r_id groups) \<and>
     set (map r_id groups) = set (map d_session_id (docs st)) \<and>
     list_all (rolled_up (docs st)) groups \<and>
     sp_current pg = page \<and>
     sp_totalSessions pg = card (set (map d_session_id (docs st))) \<and>
     sp_total pg = \<lceil>real (card (set (map d_session_id (docs st)))) / real_of_int per\<rceil>"
proof -
  let ?g = "sort_key (\<lambda>r. - r_last_activity r) (group_by_session (docs st))"
  let ?n = "length (remdups (map d_session_id (docs st)))"
  have p: "page_of q = page"
    using assms(2,4) by (rule page_of_eq)
  have l: "limit_of q = per"
    using assms(3,5) by (rule limit_of_eq)
  have ok: "rows_ok (docs st) (group_by_session (docs st))"
    by (rule rows_ok_group)
  have n: "?n = card (set (map d_session_id (docs st)))"
    by (rule length_remdups_card_conv)
  have g: "getSessions production q st =
     Ok200 (take (nat per) (drop (nat ((page - 1) * per)) ?g),
            \<lparr> sp_current = page, sp_total = ceil_div (int ?n) per,
              sp_totalSessions = ?n \<rparr>)"
    using getSessions_reachable [of st q production] assms(1,4,5) p l by simp
  have s: "sorted_wrt (\<lambda>a b. r_last_activity b \<le> r_last_activity a) ?g"
    by (rule rows_sorted)
  have d: "distinct (map r_id ?g)"
    using ok by (simp add: rows_ok_def distinct_map)
  have i: "set (map r_id ?g) = set (map d_session_id (docs st))"
    using ok by (simp add: rows_ok_def)
  have r: "list_all (rolled_up (docs st)) ?g"
    by (simp add: list_all_iff group_rolled_up)
  have c: "ceil_div (int ?n) per = \<lceil>real ?n / real_of_int per\<rceil>"
    using ceil_div_ceiling [of "int ?n" per] by simp
  show ?thesis
    apply (rule exI [of _ "take (nat per) (drop (nat ((page - 1) * per)) ?g)"])
    apply (rule exI [of _ "\<lparr> sp_current = page, sp_total = ceil_div (int ?n) per,
              sp_totalSessions = ?n \<rparr>"])
    apply (rule exI [of _ ?g])
    using g s d i r c n
    apply simp
    done
qed

text \<open>
  Two records of \<open>s1\<close>, with one and with two page views, and a later record of \<open>s2\<close>:
  \<^verbatim>\<open>?page=2&limit=1\<close> is answered with the row of \<open>s1\<close>, of two records and three page
  views, for two sessions on two pages.
\<close>

theorem sessions_rollup_witness:
  "down pair_store = None \<and> q_page second_session_query = Some 2 \<and>
   q_limit second_session_query = Some 1 \<and>
   map_option
     (\<lambda>r. (map (\<lambda>row. (r_id row, r_last_activity row, r_page_views_count row,
                         r_total_records row)) (fst r),
           sp_current (snd r), sp_total (snd r), sp_totalSessions (snd r)))
     (ok_value (getSessions True second_session_query pair_store)) =
   Some ([(''s1'', 200, 3, 2)], 2, 2, 2)"
proof -
  have a: "down pair_store = None"
    by (simp add: pair_store_def)
  have p: "q_page second_session_query = Some 2"
    and l: "q_limit second_session_query = Some 1"
    by (simp_all add: second_session_query_def)
  have two: "(1::int) \<le> 2" and one: "(1::int) \<le> 1"
    by simp_all
  obtain rows pg groups where
    g: "getSessions True second_session_query pair_store = Ok200 (rows, pg)" and
    r: "rows = take (nat 1) (drop (nat ((2 - 1) * 1)) groups)" and
    s: "sorted_wrt (\<lambda>a b. r_last_activity b \<le> r_last_activity a) groups" and
    d: "distinct (map r_id groups)" and
    i: "set (map r_id groups) = set (map d_session_id (docs pair_store))" and
    u: "list_all (rolled_up (docs pair_store)) groups" and
    f: "sp_current pg = 2"
       "sp_totalSessions pg = card (set (map d_session_id (docs pair_store)))"
       "sp_total pg =
          \<lceil>real (card (set (map d_session_id (docs pair_store)))) / real_of_int 1\<rceil>"
    using sessions_rollup
            [of pair_store second_session_query 2 1 True,
             OF a disjI1 [OF p] disjI1 [OF l] two one]
    by blast
  have ids: "set (map r_id groups) = {''s1'', ''s2''}"
    using i by (auto simp: pair_store_def plain_doc_def stored_doc_def)
  have n: "card (set (map d_session_id (docs pair_store))) = 2"
    by (simp add: pair_store_def plain_doc_def stored_doc_def)
  have "length (map r_id groups) = card (set (map r_id groups))"
    using d by (simp only: distinct_card)
  then have "length groups = 2"
    using i n by simp
  then obtain x y where xy: "groups = [x, y]"
    by (auto simp: length_Suc_conv numeral_2_eq_2)
  have s1: "session_docs ''s1'' (docs pair_store) =
      [plain_doc 0 ''s1'' 100 1 0, plain_doc 1 ''s1'' 200 2 0]"
    and s2: "session_docs ''s2'' (docs pair_store) = [plain_doc 2 ''s2'' 300 0 0]"
    by (simp_all add: session_docs_def pair_store_def plain_doc_def stored_doc_def)
  have row1: "r_last_activity row = 200 \<and> r_page_views_count row = 3 \<and> r_total_records row = 2"
    if "rolled_up (docs pair_store) row" "r_id row = ''s1''" for row
    using that unfolding rolled_up_def by (simp add: s1 plain_doc_def stored_doc_def)
  have row2: "r_last_activity row = 300"
    if "rolled_up (docs pair_store) row" "r_id row = ''s2''" for row
    using that unfolding rolled_up_def by (simp add: s2 plain_doc_def stored_doc_def)
  have ux: "rolled_up (docs pair_store) x" and uy: "rolled_up (docs pair_store) y"
    using u xy by simp_all
  have le: "r_last_activity y \<le> r_last_activity x"
    using s xy by simp
  have "r_id x \<noteq> r_id y" "{r_id x, r_id y} = {''s1'', ''s2''}"
    using d ids xy by simp_all
  then have "r_id x = ''s1'' \<and> r_id y = ''s2'' \<or> r_id x = ''s2'' \<and> r_id y = ''s1''"
    by (auto simp: doubleton_eq_iff)
  then have y1: "r_id y = ''s1''"
    using row1 [OF ux] row2 [OF uy] le by auto
  have rows: "rows = [y]"
    using r xy by simp
  show ?thesis
    using a p l g rows y1 row1 [OF uy y1] f n by (simp add: ok_value_def)
qed

text \<open>
  The claim as it was stated, with the last activity being the latest time of ingestion,
  fails on the two records from browsers whose clocks disagree with the server's: the
  session's last activity is 9000, what the first browser's clock said, and the later of
  the two records was stored at 2000.
\<close>

theorem sessions_ingestion_counterexample:
  "map_option (\<lambda>r. map r_last_activity (fst r))
     (ok_value (getSessions True default_query skewed_store)) = Some [9000] \<and>
   Max (set (map d_createdAt (docs skewed_store))) = 2000"
proof -
  have a: "down skewed_store = None"
    by (simp add: skewed_store_def)
  have p: "page_of default_query = 1" "limit_of default_query = 50"
    by (simp_all add: page_of_def limit_of_def or_default_def default_query_def)
  have g: "group_by_session (docs skewed_store) =
      [accumulate (new_row (stored_doc 0 ''s1'' 1000 9000 0 0))
         (stored_doc 1 ''s1'' 2000 500 0 0)]"
    by (simp add: group_by_session_def skewed_store_def new_row_def stored_doc_def)
  have "getSessions True default_query skewed_store =
     Ok200 (take (nat (limit_of default_query))
              (drop (nat ((page_of default_query - 1) * limit_of default_query))
                (sort_key (\<lambda>r. - r_last_activity r) (group_by_session (docs skewed_store)))),
            \<lparr> sp_current = page_of default_query,
              sp_total =
                ceil_div (int (length (remdups (map d_session_id (docs skewed_store)))))
                  (limit_of default_query),
              sp_totalSessions = length (remdups (map d_session_id (docs skewed_store))) \<rparr>)"
    using a p by (intro getSessions_reachable) simp_all
  then have "map_option (\<lambda>r. map r_last_activity (fst r))
     (ok_value (getSessions True default_query skewed_store)) = Some [9000]"
    by (simp add: p g ok_value_def accumulate_def new_row_def stored_doc_def)
  moreover have "Max (set (map d_createdAt (docs skewed_store))) = 2000"
    by (simp add: skewed_store_def stored_doc_def)
  ultimately show ?thesis
    by simp
qed

subsection \<open>Statistics\<close>

lemma fold_add_length:
  "fold (\<lambda>rec acc. acc + f rec) xs (a::nat) = a + sum_list (map f xs)"
  by (induction xs arbitrary: a) simp_all

lemma getStats_reachable:
  assumes "down st = None"
  shows "getStats production now st =
     Ok200 \<lparr> total_records = length (docs st),
             total_sessions = card (set (map d_session_id (docs st))),
             last_24_hours = length (filter (\<lambda>d. now - 86400000 \<le> d_collected_at d) (docs st)),
             total_mouse_events = sum_list (map (\<lambda>d. length (d_mouse_events d))
               (take 1000 (filter (\<lambda>d. now - 86400000 \<le> d_collected_at d) (docs st)))),
             total_click_events = sum_list (map (\<lambda>d. length (d_click_events d))
               (take 1000 (filter (\<lambda>d. now - 86400000 \<le> d_collected_at d) (docs st)))),
             total_scroll_events = sum_list (map (\<lambda>d. length (d_scroll_events d))
               (take 1000 (filter (\<lambda>d. now - 86400000 \<le> d_collected_at d) (docs st)))),
             total_key_events = sum_list (map (\<lambda>d. length (d_key_events d))
               (take 1000 (filter (\<lambda>d. now - 86400000 \<le> d_collected_at d) (docs st)))),
             total_page_views = sum_list (map (\<lambda>d. length (d_page_views d))
               (take 1000 (filter (\<lambda>d. now - 86400000 \<le> d_collected_at d) (docs st)))) \<rparr>"
  using assms
  by (simp add: getStats_def countDocuments_def distinct_session_ids_def find_since_def
        apply_limit_def Let_def fold_add_length length_remdups_card_conv del: set_map)


lemma sort_key_snoc_least:
  assumes "\<forall>x \<in> set xs. f b < f x"
  shows "foldr (insort_key f) xs [b] = b # sort_key f xs"
  using assms
proof (induction xs)
  case Nil
  then show ?case by simp
next
  case (Cons x xs)
  then have "\<not> f x \<le> f b" by auto
  with Cons show ?case by (simp add: sort_key_def)
qed

lemma newest_first_snoc:
  assumes "\<forall>d \<in> set ds. d_collected_at d < d_collected_at b"
  shows "newest_first (ds @ [b]) = b # newest_first ds"
proof -
  have "foldr (insort_key (\<lambda>d. - d_collected_at d)) ds [b] =
        b # sort_key (\<lambda>d. - d_collected_at d) ds"
    using assms by (intro sort_key_snoc_least) simp
  then show ?thesis
    by (simp add: newest_first_def sort_key_def)
qed

lemma history_quiet: "d \<in> set (history n) \<Longrightarrow> d_mouse_events d = [] \<and> d_collected_at d < int n"
  by (auto simp: history_def plain_doc_def stored_doc_def)

lemma sum_quiet:
  "\<forall>d \<in> set ds. d_mouse_events d = [] \<Longrightarrow> sum_list (map (\<lambda>d. length (d_mouse_events d)) ds) = 0"
  by (induction ds) simp_all




text \<open>
  Nor is the sample the 1000 most recent records on a store that returns its 1001
  records of the last 24 hours in the order they were inserted: the one mouse event is
  in the most recent record, which is not in the sample, and the endpoint counts no
  mouse event.
\<close>

lemma stats_sample_in_insertion_order:
  "map_option total_mouse_events (ok_value (getStats True 2000 crowded_store)) = Some 0 \<and>
   sum_list (map (\<lambda>d. length (d_mouse_events d))
     (most_recent 1000 (filter (\<lambda>d. 2000 - 86400000 \<le> d_collected_at d) (docs crowded_store)))) = 1"
proof -
  let ?b = "plain_doc 1000 ''s1'' 1000 0 1"
  have w: "filter (\<lambda>d. - 86398000 \<le> d_collected_at d) (docs crowded_store) = history 1000 @ [?b]"
    by (auto simp: crowded_store_def history_def plain_doc_def stored_doc_def filter_id_conv)
  have len: "length (history 1000) = 1000"
    by (simp add: history_def)
  have q: "\<forall>d \<in> set (history 1000). d_mouse_events d = []"
    using history_quiet by blast
  have code: "sum_list (map (\<lambda>d. length (d_mouse_events d)) (take 1000 (history 1000 @ [?b]))) = 0"
    using len q by (simp add: sum_quiet)
  have "\<forall>d \<in> set (history 1000). d_collected_at d < d_collected_at ?b"
    using history_quiet [of _ 1000] by (simp add: plain_doc_def stored_doc_def)
  then have nf: "newest_first (history 1000 @ [?b]) = ?b # newest_first (history 1000)"
    by (rule newest_first_snoc)
  have "\<forall>d \<in> set (take 999 (newest_first (history 1000))). d_mouse_events d = []"
    using q by (auto simp: newest_first_def dest: in_set_takeD)
  then have rest: "sum_list (map (\<lambda>d. length (d_mouse_events d)) (take 999 (newest_first (history 1000)))) = 0"
    by (rule sum_quiet)
  have one: "length (d_mouse_events ?b) = 1"
    by (simp add: plain_doc_def stored_doc_def)
  have "most_recent 1000 (history 1000 @ [?b]) = ?b # take 999 (newest_first (history 1000))"
    unfolding most_recent_def nf by (simp add: take_Cons')
  then have spec: "sum_list (map (\<lambda>d. length (d_mouse_events d)) (most_recent 1000 (history 1000 @ [?b]))) = 1"
    using rest one by simp
  have av: "down crowded_store = None"
    by (simp add: crowded_store_def)
  show ?thesis
    using code spec by (simp add: getStats_reachable [OF av] ok_value_def w)
qed

end
